theory Spec2Isabelle
  imports Complex_Main
begin

section \<open>MPPI control of a differential-drive robot\<close>

text \<open>
  A shallow embedding of the class \<^verbatim>\<open>MPPIControllerForDifferentialDrive\<close> of
  \<^verbatim>\<open>mppi_differential_drive.ipynb\<close>. NumPy's float64 values are read as real numbers;
  arrays are lists; every exception the code can raise is a value of \<open>error\<close>.
  The random draw of \<^verbatim>\<open>np.random.multivariate_normal\<close> is an explicit argument: a function
  from the sample index \<open>k\<close> and the time index \<open>t\<close> to the noise 2-vector.
\<close>

subsection \<open>Data\<close>

type_synonym state = "real \<times> real \<times> real"
  \<comment> \<open>\<^verbatim>\<open>[x, y, yaw]\<close>\<close>

type_synonym control = "real \<times> real"
  \<comment> \<open>\<^verbatim>\<open>[v, w]\<close>: linear and angular velocity\<close>

type_synonym noise = "nat \<Rightarrow> nat \<Rightarrow> control"
  \<comment> \<open>\<^verbatim>\<open>epsilon[k, t]\<close>\<close>

datatype error = ValueError | ZeroDivisionError | LinAlgError | IndexError | AttributeError

text \<open>A two-dimensional array with its shape; \<open>entry\<close> is read inside the shape only.\<close>

record matrix =
  shape0 :: nat
  shape1 :: nat
  entry :: "nat \<Rightarrow> nat \<Rightarrow> real"

text \<open>The arguments of \<^verbatim>\<open>__init__\<close>. The cost weights are the three components the
  cost functions read (indices 0, 1, 2 of the weight arrays).\<close>

record config =
  delta_t :: real
  wheel_base :: real
  robot_width :: real
  robot_length :: real
  max_linear_vel :: real
  max_angular_vel :: real
  goal :: state
  horizon_step_T :: int
  number_of_samples_K :: int
  param_exploration :: real
  param_lambda :: real
  param_alpha :: real
  sigma :: matrix
  stage_cost_weight :: "real \<times> real \<times> real"
  terminal_cost_weight :: "real \<times> real \<times> real"
  visualize_optimal_traj :: bool
  visualze_sampled_trajs :: bool
  obstacle_circles :: "(real \<times> real \<times> real) list"
  collision_safety_margin_rate :: real

text \<open>The object after \<^verbatim>\<open>__init__\<close>: the configuration (\<^verbatim>\<open>self.T\<close> is
  \<open>horizon_step_T\<close>, \<^verbatim>\<open>self.K\<close> is \<open>number_of_samples_K\<close>, \<^verbatim>\<open>self.Sigma\<close> is \<open>sigma\<close>,
  \<^verbatim>\<open>self.robot_w\<close> and \<^verbatim>\<open>self.robot_l\<close> are \<open>robot_width\<close> and \<open>robot_length\<close>), the derived
  \<^verbatim>\<open>self.param_gamma\<close> and the warm-start buffer \<^verbatim>\<open>self.u_prev\<close>.\<close>

record solver = config +
  param_gamma :: real
  u_prev :: "control list"

definition dim_u :: nat where
  "dim_u = 2"

definition zero_control :: control where
  "zero_control = (0, 0)"

definition zero_state :: state where
  "zero_state = (0, 0, 0)"

definition cadd :: "control \<Rightarrow> control \<Rightarrow> control" where
  "cadd a b = (fst a + fst b, snd a + snd b)"

definition cscale :: "real \<Rightarrow> control \<Rightarrow> control" where
  "cscale r a = (r * fst a, r * snd a)"

subsection \<open>Construction\<close>

text \<open>\<^verbatim>\<open>__init__\<close> stores its arguments and allocates
  \<^verbatim>\<open>np.zeros((self.T, self.dim_u))\<close>, which raises ValueError for a negative \<open>T\<close>.
  Nothing else is checked.\<close>

definition init :: "config \<Rightarrow> error + solver" where
  "init c =
     (if horizon_step_T c < 0 then Inl ValueError
      else Inr \<lparr> delta_t = delta_t c, wheel_base = wheel_base c,
        robot_width = robot_width c, robot_length = robot_length c,
        max_linear_vel = max_linear_vel c, max_angular_vel = max_angular_vel c,
        goal = goal c, horizon_step_T = horizon_step_T c,
        number_of_samples_K = number_of_samples_K c,
        param_exploration = param_exploration c, param_lambda = param_lambda c,
        param_alpha = param_alpha c, sigma = sigma c,
        stage_cost_weight = stage_cost_weight c,
        terminal_cost_weight = terminal_cost_weight c,
        visualize_optimal_traj = visualize_optimal_traj c,
        visualze_sampled_trajs = visualze_sampled_trajs c,
        obstacle_circles = obstacle_circles c,
        collision_safety_margin_rate = collision_safety_margin_rate c,
        param_gamma = param_lambda c * (1 - param_alpha c),
        u_prev = replicate (nat (horizon_step_T c)) zero_control \<rparr>)"

text \<open>The class invariant: the buffer has \<open>T\<close> rows.\<close>

definition solver_ok :: "solver \<Rightarrow> bool" where
  "solver_ok s = (0 \<le> horizon_step_T s \<and> length (u_prev s) = nat (horizon_step_T s))"

subsection \<open>Noise, saturation, kinematics, costs\<close>

text \<open>\<^verbatim>\<open>_calc_epsilon\<close>: the shape check, then the draw (sizes must not be negative).\<close>

definition calc_epsilon :: "matrix \<Rightarrow> int \<Rightarrow> int \<Rightarrow> nat \<Rightarrow> noise \<Rightarrow> error + noise" where
  "calc_epsilon sg size_sample size_time_step size_dim_u draw =
     (if shape0 sg \<noteq> shape1 sg \<or> shape0 sg \<noteq> size_dim_u \<or> size_dim_u < 1
      then Inl ValueError
      else if size_sample < 0 \<or> size_time_step < 0 then Inl ValueError
      else Inr draw)"

text \<open>\<^verbatim>\<open>np.clip(a, lo, hi)\<close> is \<open>minimum(maximum(a, lo), hi)\<close>.\<close>

definition clip :: "real \<Rightarrow> real \<Rightarrow> real \<Rightarrow> real" where
  "clip a lo hi = min (max a lo) hi"

text \<open>\<^verbatim>\<open>_g\<close> writes the clipped components into its argument and returns it: the caller's
  array row is saturated too. The model returns the saturated row; each caller below
  stores it where the source's row lives.\<close>

definition mppi_g :: "solver \<Rightarrow> control \<Rightarrow> control" where
  "mppi_g s v =
     (clip (fst v) (- max_linear_vel s) (max_linear_vel s),
      clip (snd v) (- max_angular_vel s) (max_angular_vel s))"

definition mppi_F :: "solver \<Rightarrow> state \<Rightarrow> control \<Rightarrow> state" where
  "mppi_F s x_t v_t =
     (case x_t of (x, y, yaw) \<Rightarrow> case v_t of (v, w) \<Rightarrow>
        (x + v * cos yaw * delta_t s, y + v * sin yaw * delta_t s, yaw + w * delta_t s))"

text \<open>Python's \<^verbatim>\<open>a % b\<close> on floats, for \<open>b > 0\<close>: \<open>a - b * floor (a / b)\<close>.\<close>

definition py_fmod :: "real \<Rightarrow> real \<Rightarrow> real" where
  "py_fmod a b = a - b * of_int \<lfloor>a / b\<rfloor>"

text \<open>The local \<^verbatim>\<open>yaw_error\<close> of \<^verbatim>\<open>_c\<close> and \<^verbatim>\<open>_phi\<close>.\<close>

definition yaw_error :: "real \<Rightarrow> real \<Rightarrow> real" where
  "yaw_error yaw gyaw = py_fmod (yaw - gyaw + pi) (2 * pi) - pi"

definition mppi_c :: "solver \<Rightarrow> state \<Rightarrow> real" where
  "mppi_c s x_t =
     (case x_t of (x, y, yaw) \<Rightarrow> case goal s of (gx, gy, gyaw) \<Rightarrow>
      case stage_cost_weight s of (w0, w1, w2) \<Rightarrow>
        w0 * (x - gx)\<^sup>2 + w1 * (y - gy)\<^sup>2 + w2 * (yaw_error yaw gyaw)\<^sup>2)"

definition mppi_phi :: "solver \<Rightarrow> state \<Rightarrow> real" where
  "mppi_phi s x_T =
     (case x_T of (x, y, yaw) \<Rightarrow> case goal s of (gx, gy, gyaw) \<Rightarrow>
      case terminal_cost_weight s of (w0, w1, w2) \<Rightarrow>
        w0 * (x - gx)\<^sup>2 + w1 * (y - gy)\<^sup>2 + w2 * (yaw_error yaw gyaw)\<^sup>2)"

subsection \<open>Rollouts and sample costs\<close>

text \<open>During the rollouts \<^verbatim>\<open>u\<close> is \<^verbatim>\<open>self.u_prev\<close> (the same array, not yet updated).
  \<open>sample_control\<close> is the value written to \<^verbatim>\<open>v[k, t-1]\<close>; \<^verbatim>\<open>_g\<close> then saturates that row
  in place, so the control-cost term reads the saturated row.\<close>

definition sample_control :: "solver \<Rightarrow> noise \<Rightarrow> nat \<Rightarrow> nat \<Rightarrow> control" where
  "sample_control s epsilon k t =
     (if real k < (1 - param_exploration s) * real_of_int (number_of_samples_K s)
      then cadd (u_prev s ! t) (epsilon k t)
      else epsilon k t)"

definition det2 :: "matrix \<Rightarrow> real" where
  "det2 m = entry m 0 0 * entry m 1 1 - entry m 0 1 * entry m 1 0"

text \<open>\<^verbatim>\<open>np.linalg.inv\<close> of a 2 x 2 matrix that is not singular.\<close>

definition inv2 :: "matrix \<Rightarrow> matrix" where
  "inv2 m = \<lparr> shape0 = 2, shape1 = 2,
     entry = (\<lambda>i j. (if i = j then entry m (1 - i) (1 - j) else - entry m i j) / det2 m) \<rparr>"

text \<open>\<^verbatim>\<open>gamma * u.T @ minv @ v\<close>, evaluated left to right.\<close>

definition quad_form :: "real \<Rightarrow> control \<Rightarrow> matrix \<Rightarrow> control \<Rightarrow> real" where
  "quad_form gm u minv v =
     (gm * fst u * entry minv 0 0 + gm * snd u * entry minv 1 0) * fst v
     + (gm * fst u * entry minv 0 1 + gm * snd u * entry minv 1 1) * snd v"

definition stage_step :: "solver \<Rightarrow> noise \<Rightarrow> nat \<Rightarrow> nat \<Rightarrow> state \<times> real \<Rightarrow> state \<times> real" where
  "stage_step s epsilon k t xS =
     (case xS of (x, Sk) \<Rightarrow>
        let v = mppi_g s (sample_control s epsilon k t);
            x' = mppi_F s x v
        in (x', Sk + (mppi_c s x' + quad_form (param_gamma s) (u_prev s ! t) (inv2 (sigma s)) v)))"

definition sample_cost :: "solver \<Rightarrow> noise \<Rightarrow> state \<Rightarrow> nat \<Rightarrow> real" where
  "sample_cost s epsilon x0 k =
     (case fold (stage_step s epsilon k) [0..<nat (horizon_step_T s)] (x0, 0) of
        (x, Sk) \<Rightarrow> Sk + mppi_phi s x)"

subsection \<open>Importance weights\<close>

text \<open>\<^verbatim>\<open>_compute_weights\<close>: \<^verbatim>\<open>np.zeros((self.K))\<close> raises for a negative \<open>K\<close>, \<^verbatim>\<open>S.min()\<close>
  raises on an empty array, \<^verbatim>\<open>-1.0/self.param_lambda\<close> raises for a zero \<open>lambda\<close> in the
  first iteration, and \<^verbatim>\<open>S[k]\<close> raises past the end of \<open>S\<close>.\<close>

definition compute_weights :: "solver \<Rightarrow> real list \<Rightarrow> error + real list" where
  "compute_weights s S =
     (if number_of_samples_K s < 0 then Inl ValueError
      else if S = [] then Inl ValueError
      else if number_of_samples_K s = 0 then Inr []
      else if param_lambda s = 0 then Inl ZeroDivisionError
      else if length S < nat (number_of_samples_K s) then Inl IndexError
      else
        let rho = Min (set S);
            eta = fold (\<lambda>k acc. acc + exp ((- 1 / param_lambda s) * (S ! k - rho)))
                    [0..<nat (number_of_samples_K s)] 0
        in Inr (map (\<lambda>k. (1 / eta) * exp ((- 1 / param_lambda s) * (S ! k - rho)))
                  [0..<nat (number_of_samples_K s)]))"

text \<open>The unshifted weights, as the specification words them: \<open>exp (-(1/lambda) * S[k])\<close>
  divided by the sum of these over all samples.\<close>

definition weights_unshifted :: "real \<Rightarrow> real list \<Rightarrow> real list" where
  "weights_unshifted lam S =
     map (\<lambda>c. exp (- (1 / lam) * c) / (\<Sum>c'\<leftarrow>S. exp (- (1 / lam) * c'))) S"

definition weighted_noise :: "solver \<Rightarrow> real list \<Rightarrow> noise \<Rightarrow> control list" where
  "weighted_noise s w epsilon =
     map (\<lambda>t. fold (\<lambda>k acc. cadd acc (cscale (w ! k) (epsilon k t)))
                [0..<nat (number_of_samples_K s)] zero_control)
         [0..<nat (horizon_step_T s)]"

subsection \<open>Moving-average filter\<close>

text \<open>\<^verbatim>\<open>np.convolve(a, v, mode="same")\<close>: both arguments must be non-empty; the longer one
  is taken as the signal; the result has the signal's length and is the full convolution
  from offset \<open>(n - 1) div 2\<close> on, \<open>n\<close> the kernel's length.\<close>

definition convolve_same :: "real list \<Rightarrow> real list \<Rightarrow> error + real list" where
  "convolve_same a v =
     (if a = [] \<or> v = [] then Inl ValueError
      else
        let a' = (if length a < length v then v else a);
            v' = (if length a < length v then a else v);
            off = (length v' - 1) div 2
        in Inr (map (\<lambda>i. \<Sum>j\<leftarrow>[0..<length a'].
                          if j \<le> i + off \<and> i + off - j < length v'
                          then a' ! j * v' ! (i + off - j) else 0)
                  [0..<length a']))"

text \<open>\<^verbatim>\<open>xs[i] *= r\<close> with Python's index: a negative index counts from the end.\<close>

definition rescale :: "real list \<Rightarrow> int \<Rightarrow> real \<Rightarrow> error + real list" where
  "rescale xs i r =
     (if i < 0
      then (if nat (- i) \<le> length xs
            then Inr (xs[length xs - nat (- i) := xs ! (length xs - nat (- i)) * r])
            else Inl IndexError)
      else (if nat i < length xs
            then Inr (xs[nat i := xs ! nat i * r])
            else Inl IndexError))"

fun edge_loop :: "nat \<Rightarrow> nat \<Rightarrow> nat list \<Rightarrow> real list \<Rightarrow> error + real list" where
  "edge_loop window_size n_conv [] xs = Inr xs"
| "edge_loop window_size n_conv (i # rest) xs =
     (case rescale xs (int i) (real window_size / real (i + n_conv)) of
        Inl e \<Rightarrow> Inl e
      | Inr xs1 \<Rightarrow>
          (case rescale xs1 (- int i)
                  (real window_size / real (i + n_conv - window_size mod 2)) of
             Inl e \<Rightarrow> Inl e
           | Inr xs2 \<Rightarrow> edge_loop window_size n_conv rest xs2))"

text \<open>One column of \<^verbatim>\<open>_moving_average_filter\<close>. Assigning the convolution to the column
  raises ValueError when the lengths differ, which happens when the column is shorter
  than the window.\<close>

definition filter_column :: "real list \<Rightarrow> nat \<Rightarrow> error + real list" where
  "filter_column col window_size =
     (case convolve_same col (replicate window_size (1 / real window_size)) of
        Inl e \<Rightarrow> Inl e
      | Inr conv \<Rightarrow>
          if length conv \<noteq> length col then Inl ValueError
          else
            let n_conv = (window_size + 1) div 2
            in (case rescale conv 0 (real window_size / real n_conv) of
                  Inl e \<Rightarrow> Inl e
                | Inr xs0 \<Rightarrow> edge_loop window_size n_conv [1..<n_conv] xs0))"

definition moving_average_filter :: "control list \<Rightarrow> nat \<Rightarrow> error + control list" where
  "moving_average_filter xx window_size =
     (case filter_column (map fst xx) window_size of
        Inl e \<Rightarrow> Inl e
      | Inr c0 \<Rightarrow>
          (case filter_column (map snd xx) window_size of
             Inl e \<Rightarrow> Inl e
           | Inr c1 \<Rightarrow> Inr (zip c0 c1)))"

subsection \<open>The control step\<close>

text \<open>The sequence after \<^verbatim>\<open>u += w_epsilon\<close>. \<^verbatim>\<open>np.linalg.inv(self.Sigma)\<close> is evaluated in
  every iteration of the rollout loops on the same matrix: it raises in the first
  iteration, if there is one, exactly when the matrix is singular.\<close>

definition updated_sequence :: "solver \<Rightarrow> noise \<Rightarrow> state \<Rightarrow> error + control list" where
  "updated_sequence s draw observed_x =
     (if number_of_samples_K s < 0 then Inl ValueError
      else
        (case calc_epsilon (sigma s) (number_of_samples_K s) (horizon_step_T s) dim_u draw of
           Inl e \<Rightarrow> Inl e
         | Inr epsilon \<Rightarrow>
             (if 0 < number_of_samples_K s \<and> 0 < horizon_step_T s \<and> det2 (sigma s) = 0
              then Inl LinAlgError
              else
                (case compute_weights s
                        (map (sample_cost s epsilon observed_x)
                           [0..<nat (number_of_samples_K s)]) of
                   Inl e \<Rightarrow> Inl e
                 | Inr w \<Rightarrow>
                     (case moving_average_filter (weighted_noise s w epsilon) 10 of
                        Inl e \<Rightarrow> Inl e
                      | Inr w_epsilon \<Rightarrow> Inr (map2 cadd (u_prev s) w_epsilon))))))"

text \<open>The diagnostic rollouts: \<^verbatim>\<open>x = self._F(x, self._g(u[t]))\<close>, keeping every \<open>x\<close>.\<close>

fun rollout :: "solver \<Rightarrow> state \<Rightarrow> control list \<Rightarrow> state list" where
  "rollout s x [] = []"
| "rollout s x (v # vs) = (let x' = mppi_F s x (mppi_g s v) in x' # rollout s x' vs)"

text \<open>\<^verbatim>\<open>self.u_prev[:-1] = u[1:]; self.u_prev[-1] = u[-1]\<close>.\<close>

definition shift_left :: "control list \<Rightarrow> error + control list" where
  "shift_left u = (if u = [] then Inl IndexError else Inr (tl u @ [last u]))"

text \<open>\<^verbatim>\<open>calc_control_input\<close>. The local \<^verbatim>\<open>u\<close> is bound by \<^verbatim>\<open>u = self.u_prev\<close> and is
  the buffer itself, so every write to one is a write to the other:
  \<^item> \<^verbatim>\<open>u += w_epsilon\<close> updates the buffer in place;
  \<^item> with \<^verbatim>\<open>visualize_optimal_traj\<close>, \<^verbatim>\<open>self._g(u[t])\<close> saturates row \<open>t\<close> of the buffer;
  \<^item> the shift into \<^verbatim>\<open>self.u_prev\<close> shifts \<^verbatim>\<open>u\<close>, and \<^verbatim>\<open>return u[0], u, ...\<close> reads both
    after the shift.
  Row \<open>k\<close> of \<^verbatim>\<open>sampled_traj_list\<close> is written when the loop over \<^verbatim>\<open>sorted_idx\<close> reaches
  \<open>k\<close>, whatever the order; the rows \<^verbatim>\<open>v[k]\<close> were saturated during the cost rollouts.
  The result is the returned tuple and the object after the call.\<close>

definition calc_control_input ::
  "solver \<Rightarrow> noise \<Rightarrow> state \<Rightarrow>
     error + ((control \<times> control list \<times> state list \<times> state list list) \<times> solver)" where
  "calc_control_input s draw observed_x =
     (case updated_sequence s draw observed_x of
        Inl e \<Rightarrow> Inl e
      | Inr u \<Rightarrow>
          let nT = nat (horizon_step_T s);
              nK = nat (number_of_samples_K s);
              optimal_traj =
                (if visualize_optimal_traj s then rollout s observed_x u
                 else replicate nT zero_state);
              u' = (if visualize_optimal_traj s then map (mppi_g s) u else u);
              sampled_traj_list =
                (if visualze_sampled_trajs s
                 then map (\<lambda>k. rollout s observed_x
                                 (map (\<lambda>t. mppi_g s (sample_control s draw k t)) [0..<nT]))
                        [0..<nK]
                 else replicate nK (replicate nT zero_state))
          in (case shift_left u' of
                Inl e \<Rightarrow> Inl e
              | Inr u_shifted \<Rightarrow>
                  Inr ((u_shifted ! 0, u_shifted, optimal_traj, sampled_traj_list),
                       s\<lparr>u_prev := u_shifted\<rparr>)))"

subsection \<open>Collision check\<close>

text \<open>\<^verbatim>\<open>_affine_transform\<close>: rotate, translate, and append the first point again.\<close>

definition affine_transform ::
  "real list \<Rightarrow> real list \<Rightarrow> real \<Rightarrow> real \<times> real \<Rightarrow> error + (real list \<times> real list)" where
  "affine_transform xlist ylist angle translation =
     (if length xlist \<noteq> length ylist then Inl AttributeError
      else
        let transformed_x =
              map (\<lambda>i. xlist ! i * cos angle - ylist ! i * sin angle + fst translation)
                [0..<length xlist];
            transformed_y =
              map (\<lambda>i. xlist ! i * sin angle + ylist ! i * cos angle + snd translation)
                [0..<length xlist]
        in if transformed_x = [] then Inl IndexError
           else Inr (transformed_x @ [hd transformed_x], transformed_y @ [hd transformed_y]))"

text \<open>\<^verbatim>\<open>_is_collided\<close> returns the float 1.0 at the first key point inside an obstacle and
  0.0 when the loops end. The key points are the locals \<^verbatim>\<open>robot_shape_x\<close> and
  \<^verbatim>\<open>robot_shape_y\<close>, from the scaled length \<open>vl\<close> and width \<open>vw\<close>.\<close>

definition robot_shape_x :: "real \<Rightarrow> real list" where
  "robot_shape_x vl =
     [- 0.5 * vl, - 0.5 * vl, 0, 0.5 * vl, 0.5 * vl, 0.5 * vl, 0, - 0.5 * vl, - 0.5 * vl]"

definition robot_shape_y :: "real \<Rightarrow> real list" where
  "robot_shape_y vw =
     [0, 0.5 * vw, 0.5 * vw, 0.5 * vw, 0, - 0.5 * vw, - 0.5 * vw, - 0.5 * vw, 0]"

definition is_collided :: "solver \<Rightarrow> state \<Rightarrow> error + real" where
  "is_collided s x_t =
     (let vw = robot_width s * collision_safety_margin_rate s;
          vl = robot_length s * collision_safety_margin_rate s
      in case x_t of (x, y, yaw) \<Rightarrow>
        (case affine_transform (robot_shape_x vl) (robot_shape_y vw) yaw (x, y) of
           Inl e \<Rightarrow> Inl e
         | Inr (rotated_robot_shape_x, rotated_robot_shape_y) \<Rightarrow>
             Inr (if list_ex (\<lambda>obs. case obs of (obs_x, obs_y, obs_r) \<Rightarrow>
                        list_ex (\<lambda>p. (rotated_robot_shape_x ! p - obs_x)\<^sup>2
                                      + (rotated_robot_shape_y ! p - obs_y)\<^sup>2 < obs_r\<^sup>2)
                          [0..<length rotated_robot_shape_x])
                      (obstacle_circles s)
                  then 1 else 0)))"

subsection \<open>A concrete configuration\<close>

text \<open>The configuration of the notebook's main cell, with one sample instead of fifty
  and both diagnostic flags off.\<close>

definition example_sigma :: matrix where
  "example_sigma = \<lparr> shape0 = 2, shape1 = 2,
     entry = (\<lambda>i j. if i = j then (if i = 0 then 0.075 else 2) else 0) \<rparr>"

definition example_config :: config where
  "example_config = \<lparr> delta_t = 0.2, wheel_base = 0.5, robot_width = 0.6,
     robot_length = 0.8, max_linear_vel = 2, max_angular_vel = 2,
     goal = (15, 5, 0), horizon_step_T = 10, number_of_samples_K = 1,
     param_exploration = 0.05, param_lambda = 100, param_alpha = 0.98,
     sigma = example_sigma, stage_cost_weight = (50, 50, 1),
     terminal_cost_weight = (50, 50, 1), visualize_optimal_traj = False,
     visualze_sampled_trajs = False,
     obstacle_circles = [(8, 5, 1), (18, - 5, 1.5)],
     collision_safety_margin_rate = 1.2 \<rparr>"

definition example_solver :: solver where
  "example_solver = \<lparr> delta_t = 0.2, wheel_base = 0.5, robot_width = 0.6,
     robot_length = 0.8, max_linear_vel = 2, max_angular_vel = 2,
     goal = (15, 5, 0), horizon_step_T = 10, number_of_samples_K = 1,
     param_exploration = 0.05, param_lambda = 100, param_alpha = 0.98,
     sigma = example_sigma, stage_cost_weight = (50, 50, 1),
     terminal_cost_weight = (50, 50, 1), visualize_optimal_traj = False,
     visualze_sampled_trajs = False,
     obstacle_circles = [(8, 5, 1), (18, - 5, 1.5)],
     collision_safety_margin_rate = 1.2,
     param_gamma = 100 * (1 - 0.98),
     u_prev = replicate 10 zero_control \<rparr>"

text \<open>A noise draw that is \<open>(0.3, 0)\<close> at the first time step and zero elsewhere, and
  a draw that is \<open>(0, 3)\<close> at every time step (the configured variances are 0.075 and
  2).\<close>

definition example_draw :: noise where
  "example_draw k t = (if t = 0 then (0.3, 0) else (0, 0))"


text \<open>The sequence after the update step and the sequence after the shift, for
  \<open>example_solver\<close>, \<open>example_draw\<close> and the observed state \<open>(0, 0, 0)\<close>.\<close>

definition example_updated :: "control list" where
  "example_updated =
     [(0.06, 0), (0.05, 0), (3 / 70, 0), (3 / 80, 0), (1 / 30, 0), (0.03, 0), (0, 0), (0, 0),
      (0, 0), (0, 0)]"

definition example_shifted :: "control list" where
  "example_shifted =
     [(0.05, 0), (3 / 70, 0), (3 / 80, 0), (1 / 30, 0), (0.03, 0), (0, 0), (0, 0), (0, 0),
      (0, 0), (0, 0)]"

text \<open>A covariance of the wrong dimension: the 3 x 3 identity.\<close>

definition identity3 :: matrix where
  "identity3 = \<lparr> shape0 = 3, shape1 = 3, entry = (\<lambda>i j. if i = j then 1 else 0) \<rparr>"

text \<open>Both components of a control within the configured limits.\<close>

definition within_limits :: "solver \<Rightarrow> control \<Rightarrow> bool" where
  "within_limits s v =
     (- max_linear_vel s \<le> fst v \<and> fst v \<le> max_linear_vel s
      \<and> - max_angular_vel s \<le> snd v \<and> snd v \<le> max_angular_vel s)"

text \<open>The unnormalised weight of \<^verbatim>\<open>_compute_weights\<close> for one cost \<open>c\<close> of the vector \<open>S\<close>.\<close>

definition shifted_exp :: "solver \<Rightarrow> real list \<Rightarrow> real \<Rightarrow> real" where
  "shifted_exp s S c = exp ((- 1 / param_lambda s) * (c - Min (set S)))"

text \<open>The factor by which window size 10 rescales entry \<open>i\<close> of a column of \<open>n\<close> entries.\<close>

definition edge_factor :: "nat \<Rightarrow> nat \<Rightarrow> real" where
  "edge_factor n i =
     (if i < 5 then 10 / real (i + 5) else if n < i + 5 then 10 / real (n - i + 5) else 1)"

section \<open>Properties\<close>

subsection \<open>Construction\<close>

lemma init_example: "init example_config = Inr example_solver"
  by (simp add: init_def example_config_def example_solver_def)

lemma init_solver_ok: "init c = Inr s \<Longrightarrow> solver_ok s"
  by (auto simp: init_def solver_ok_def split: if_splits)

lemma example_solver_ok: "solver_ok example_solver"
  by (simp add: solver_ok_def example_solver_def)

subsection \<open>Heading error\<close>

lemma py_fmod_range: "0 < b \<Longrightarrow> 0 \<le> py_fmod a b \<and> py_fmod a b < b"
proof -
  assume b: "0 < b"
  have "b * of_int \<lfloor>a / b\<rfloor> \<le> b * (a / b)"
    using b by (intro mult_left_mono) auto
  then have lower: "b * of_int \<lfloor>a / b\<rfloor> \<le> a"
    using b by simp
  have "a / b < of_int \<lfloor>a / b\<rfloor> + 1"
    by linarith
  then have "b * (a / b) < b * (of_int \<lfloor>a / b\<rfloor> + 1)"
    using b by (intro mult_strict_left_mono) auto
  then have upper: "a < b * (of_int \<lfloor>a / b\<rfloor> + 1)"
    using b by simp
  show ?thesis
    using lower upper by (simp add: py_fmod_def algebra_simps)
qed

lemma yaw_error_range: "- pi \<le> yaw_error a b \<and> yaw_error a b < pi"
  using py_fmod_range [of "2 * pi" "a - b + pi"] by (simp add: yaw_error_def)

lemma yaw_error_3pi: "yaw_error (3 * pi) 0 = - pi"
proof -
  have "(3 * pi + pi) / (2 * pi) = 2"
    by simp
  then have "\<lfloor>(3 * pi + pi) / (2 * pi)\<rfloor> = 2"
    by simp
  then show ?thesis
    by (simp add: yaw_error_def py_fmod_def)
qed

lemma yaw_error_cong: "\<exists>n::int. yaw_error a b = a - b - 2 * pi * of_int n"
  by (rule exI [of _ "\<lfloor>(a - b + pi) / (2 * pi)\<rfloor>"]) (simp add: yaw_error_def py_fmod_def)

text \<open>C6, as the claim states it, fails: for goal heading 0 and rollout heading \<open>3 * pi\<close>
  the wrapped heading error of the costs is \<open>- pi\<close>, which is not \<open>pi\<close> and does not lie
  in the interval \<open>(- pi, pi]\<close>.\<close>

theorem C6_heading_error_counterexample:
  "yaw_error (3 * pi) 0 \<noteq> pi \<and> \<not> (- pi < yaw_error (3 * pi) 0)"
  using pi_gt_zero by (simp add: yaw_error_3pi)

text \<open>C6, amended: the stage and the terminal cost square the heading difference wrapped
  to the half-open interval \<open>[- pi, pi)\<close>: the wrapped error differs from the difference
  by a multiple of \<open>2 * pi\<close>, is at least \<open>- pi\<close> and less than \<open>pi\<close>; for goal heading 0
  and rollout heading \<open>3 * pi\<close> it is \<open>- pi\<close>.\<close>

theorem C6_heading_error_wrapped:
  "mppi_c s (x, y, yaw) =
     fst (stage_cost_weight s) * (x - fst (goal s))\<^sup>2
     + fst (snd (stage_cost_weight s)) * (y - fst (snd (goal s)))\<^sup>2
     + snd (snd (stage_cost_weight s)) * (yaw_error yaw (snd (snd (goal s))))\<^sup>2
   \<and> mppi_phi s (x, y, yaw) =
     fst (terminal_cost_weight s) * (x - fst (goal s))\<^sup>2
     + fst (snd (terminal_cost_weight s)) * (y - fst (snd (goal s)))\<^sup>2
     + snd (snd (terminal_cost_weight s)) * (yaw_error yaw (snd (snd (goal s))))\<^sup>2
   \<and> - pi \<le> yaw_error yaw gyaw \<and> yaw_error yaw gyaw < pi
   \<and> (\<exists>n::int. yaw_error yaw gyaw = yaw - gyaw - 2 * pi * of_int n)
   \<and> yaw_error (3 * pi) 0 = - pi"
proof -
  have "mppi_c s (x, y, yaw) =
     fst (stage_cost_weight s) * (x - fst (goal s))\<^sup>2
     + fst (snd (stage_cost_weight s)) * (y - fst (snd (goal s)))\<^sup>2
     + snd (snd (stage_cost_weight s)) * (yaw_error yaw (snd (snd (goal s))))\<^sup>2"
    by (simp add: mppi_c_def split: prod.splits)
  moreover have "mppi_phi s (x, y, yaw) =
     fst (terminal_cost_weight s) * (x - fst (goal s))\<^sup>2
     + fst (snd (terminal_cost_weight s)) * (y - fst (snd (goal s)))\<^sup>2
     + snd (snd (terminal_cost_weight s)) * (yaw_error yaw (snd (snd (goal s))))\<^sup>2"
    by (simp add: mppi_phi_def split: prod.splits)
  ultimately show ?thesis
    using yaw_error_range [of yaw gyaw] yaw_error_cong [of yaw gyaw] yaw_error_3pi
    by blast
qed

subsection \<open>Importance weights\<close>

lemma fold_add_sum_list:
  "fold (\<lambda>k acc. acc + f k) xs (a::real) = a + sum_list (map f xs)"
  by (induction xs arbitrary: a) (simp_all add: algebra_simps)

lemma map_index_nth: "map (\<lambda>k. f (S ! k)) [0..<length S] = map f S"
proof -
  have "map (\<lambda>k. f (S ! k)) [0..<length S] = map f (map ((!) S) [0..<length S])"
    by (simp add: comp_def)
  then show ?thesis
    by (simp only: map_nth)
qed

lemma sum_list_exp_pos: "S \<noteq> [] \<Longrightarrow> 0 < (\<Sum>c\<leftarrow>S. exp (f c :: real))"
proof (induction S)
  case Nil
  then show ?case by simp
next
  case (Cons a S)
  have "0 \<le> (\<Sum>c\<leftarrow>S. exp (f c))"
    by (rule sum_list_nonneg) auto
  then show ?case
    by (simp add: add_pos_nonneg)
qed

text \<open>On a cost vector of \<open>K\<close> entries the two loops of \<^verbatim>\<open>_compute_weights\<close> return the
  shifted exponentials divided by their sum \<open>eta\<close>.\<close>

lemma compute_weights_eq:
  assumes "number_of_samples_K s = int (length S)" "S \<noteq> []" "param_lambda s \<noteq> 0"
  shows "compute_weights s S =
     Inr (map (\<lambda>c. (1 / (\<Sum>c'\<leftarrow>S. shifted_exp s S c')) * shifted_exp s S c) S)"
proof -
  have "compute_weights s S =
      Inr (map (\<lambda>k. (1 / fold (\<lambda>k acc. acc + shifted_exp s S (S ! k)) [0..<length S] 0)
                     * shifted_exp s S (S ! k)) [0..<length S])"
    using assms by (simp add: compute_weights_def shifted_exp_def Let_def)
  also have "fold (\<lambda>k acc. acc + shifted_exp s S (S ! k)) [0..<length S] 0
      = (\<Sum>c'\<leftarrow>S. shifted_exp s S c')"
    by (simp only: fold_add_sum_list map_index_nth add_0)
  finally show ?thesis
    using map_index_nth
      [of "\<lambda>c. (1 / (\<Sum>c'\<leftarrow>S. shifted_exp s S c')) * shifted_exp s S c" S]
    by simp
qed

lemma shifted_exp_factor:
  "param_lambda s \<noteq> 0 \<Longrightarrow>
     shifted_exp s S c = exp (Min (set S) / param_lambda s) * exp (- (1 / param_lambda s) * c)"
  by (simp add: shifted_exp_def exp_add [symmetric] algebra_simps diff_divide_distrib)

text \<open>C4: for every non-empty cost vector \<open>S\<close> (one cost per sample, \<open>lambda\<close> not zero)
  \<^verbatim>\<open>_compute_weights\<close> returns a weight vector with one entry per sample, every entry
  non-negative, and the entries sum to 1.\<close>

theorem C4_weights_normalised:
  assumes "number_of_samples_K s = int (length S)" "S \<noteq> []" "param_lambda s \<noteq> 0"
  shows "\<exists>w. compute_weights s S = Inr w \<and> length w = length S
            \<and> list_all (\<lambda>x. 0 \<le> x) w \<and> sum_list w = 1"
proof -
  let ?eta = "\<Sum>c'\<leftarrow>S. shifted_exp s S c'"
  let ?w = "map (\<lambda>c. (1 / ?eta) * shifted_exp s S c) S"
  have pos: "0 < ?eta"
    unfolding shifted_exp_def using assms(2) by (rule sum_list_exp_pos)
  have "list_all (\<lambda>x. 0 \<le> x) ?w"
    using pos by (simp add: list_all_iff shifted_exp_def)
  moreover have "sum_list ?w = (1 / ?eta) * ?eta"
    by (simp only: sum_list_const_mult)
  then have "sum_list ?w = 1"
    using pos by simp
  ultimately show ?thesis
    using compute_weights_eq [OF assms] by simp
qed

theorem C4_weights_normalised_witness:
  "\<exists>w. compute_weights (example_solver\<lparr>number_of_samples_K := 2\<rparr>) [1, 3] = Inr w
       \<and> length w = length [1, 3 :: real] \<and> list_all (\<lambda>x. 0 \<le> x) w \<and> sum_list w = 1"
  using C4_weights_normalised [of "example_solver\<lparr>number_of_samples_K := 2\<rparr>" "[1, 3]"]
  by (simp add: example_solver_def)

text \<open>C5: for every non-empty cost vector and \<open>lambda > 0\<close>, the weights that
  \<^verbatim>\<open>_compute_weights\<close> computes with the shift by \<open>rho = min S\<close> are exactly the unshifted
  exponentials \<open>exp (-(1/lambda) * S[k])\<close> divided by their sum.\<close>

theorem C5_shift_invariant:
  assumes "number_of_samples_K s = int (length S)" "S \<noteq> []" "0 < param_lambda s"
  shows "compute_weights s S = Inr (weights_unshifted (param_lambda s) S)"
proof -
  have l: "param_lambda s \<noteq> 0"
    using assms(3) by simp
  let ?r = "exp (Min (set S) / param_lambda s)"
  let ?u = "\<Sum>c'\<leftarrow>S. exp (- (1 / param_lambda s) * c')"
  have eta: "(\<Sum>c'\<leftarrow>S. shifted_exp s S c') = ?r * ?u"
    by (simp only: shifted_exp_factor [OF l] sum_list_const_mult)
  have "(1 / (?r * ?u)) * (?r * exp (- (1 / param_lambda s) * c))
      = exp (- (1 / param_lambda s) * c) / ?u" for c
    by simp
  then show ?thesis
    unfolding compute_weights_eq [OF assms(1,2) l] weights_unshifted_def eta
      shifted_exp_factor [OF l]
    by simp
qed

theorem C5_shift_invariant_witness:
  "compute_weights (example_solver\<lparr>number_of_samples_K := 2\<rparr>) [1, 3]
     = Inr (weights_unshifted 100 [1, 3])"
  using C5_shift_invariant [of "example_solver\<lparr>number_of_samples_K := 2\<rparr>" "[1, 3]"]
  by (simp add: example_solver_def)

subsection \<open>Moving-average filter\<close>

lemma window_sum_const:
  assumes "i < n"
  shows "(\<Sum>j\<leftarrow>[0..<n]. if j \<le> i + 4 \<and> i + 4 - j < 10 then c * (1 / 10) else (0::real))
         = c * real (min n (i + 5) - (i - 5)) / 10"
proof -
  have "(\<Sum>j\<leftarrow>[0..<n]. if j \<le> i + 4 \<and> i + 4 - j < 10 then c * (1 / 10) else (0::real))
      = (\<Sum>j\<in>{0..<n}. if j \<in> {j. j \<le> i + 4 \<and> i + 4 - j < 10} then c * (1 / 10) else 0)"
    by (simp add: interv_sum_list_conv_sum_set_nat)
  also have "\<dots> = (\<Sum>j\<in>{0..<n} \<inter> {j. j \<le> i + 4 \<and> i + 4 - j < 10}. c * (1 / 10))"
    by (rule sum.inter_restrict [symmetric]) simp
  also have "{0..<n} \<inter> {j. j \<le> i + 4 \<and> i + 4 - j < 10} = {i - 5..<min n (i + 5)}"
    by auto
  finally show ?thesis by simp
qed

lemma convolve_same_const:
  assumes "10 \<le> n"
  shows "convolve_same (replicate n c) (replicate 10 (1 / 10))
     = Inr (map (\<lambda>i. c * real (min n (i + 5) - (i - 5)) / 10) [0..<n])"
proof -
  have "(\<Sum>j\<leftarrow>[0..<n]. if j \<le> i + 4 \<and> i + 4 - j < 10
            then replicate n c ! j * replicate 10 (1 / 10) ! (i + 4 - j) else 0)
      = (\<Sum>j\<leftarrow>[0..<n]. if j \<le> i + 4 \<and> i + 4 - j < 10 then c * (1 / 10) else (0::real))" for i
    by (rule arg_cong [where f = sum_list], rule map_cong) auto
  then show ?thesis
    using assms by (simp add: convolve_same_def window_sum_const cong: map_cong)
qed


lemma upt_1_5: "[Suc 0..<5] = [1, 2, 3, 4]"
  by (simp add: upt_rec)

lemma edge_loop_10:
  assumes "10 \<le> length xs"
  shows "\<exists>L. edge_loop 10 5 [1..<5] (xs[0 := xs ! 0 * (10 / 5)]) = Inr L
          \<and> length L = length xs \<and> (\<forall>i<length xs. L ! i = xs ! i * edge_factor (length xs) i)"
proof -
  have ne: "xs \<noteq> []" using assms by auto
  show ?thesis
    using assms ne
    apply (simp add: upt_1_5 rescale_def nth_list_update edge_factor_def)
    apply (intro allI impI conjI)
    apply auto
    subgoal for i by (cases "i = 0") auto
    done
qed

lemma filter_column_unfold:
  assumes "convolve_same col (replicate w (1 / real w)) = Inr conv"
    and "length conv = length col"
    and "rescale conv 0 (real w / real ((w + 1) div 2)) = Inr xs0"
  shows "filter_column col w = edge_loop w ((w + 1) div 2) [1..<(w + 1) div 2] xs0"
  using assms by (simp add: filter_column_def Let_def)

lemma filter_column_10:
  assumes "10 \<le> length col" 
    and "convolve_same col (replicate 10 (1 / 10)) = Inr conv" and "length conv = length col"
  shows "filter_column col 10 = Inr (map (\<lambda>i. conv ! i * edge_factor (length col) i) [0..<length col])"
proof -
  have ne: "conv \<noteq> []" using assms by auto
  obtain L where L: "edge_loop 10 5 [1..<5] (conv[0 := conv ! 0 * (10 / 5)]) = Inr L"
    and len: "length L = length conv"
    and nth: "\<forall>i<length conv. L ! i = conv ! i * edge_factor (length conv) i"
    using edge_loop_10 [of conv] assms by auto
  have Leq: "L = map (\<lambda>i. conv ! i * edge_factor (length col) i) [0..<length col]"
    using len nth assms(3) by (intro nth_equalityI) auto
  have r0: "rescale conv 0 (real 10 / real ((10 + 1) div 2)) = Inr (conv[0 := conv ! 0 * (10 / 5)])"
    using ne by (simp add: rescale_def)
  have c0: "convolve_same col (replicate 10 (1 / real 10)) = Inr conv"
    using assms(2) by simp
  have "filter_column col 10 = edge_loop 10 ((10 + 1) div 2) [1..<(10 + 1) div 2] (conv[0 := conv ! 0 * (10 / 5)])"
    by (rule filter_column_unfold [OF c0 assms(3) r0])
  also have "\<dots> = edge_loop 10 5 [1..<5] (conv[0 := conv ! 0 * (10 / 5)])"
    by simp
  finally show ?thesis using L Leq by simp
qed

lemma scale_back: "(d::real) \<noteq> 0 \<Longrightarrow> c * d / 10 * (10 / d) = c"
  by simp

lemma window_count_factor:
  assumes "10 \<le> n" "i < n"
  shows "c * real (min n (i + 5) - (i - 5)) / 10 * edge_factor n i = c"
proof -
  consider "i < 5" | "5 \<le> i" "n < i + 5" | "5 \<le> i" "i + 5 \<le> n" by linarith
  then show ?thesis
  proof cases
    case 1
    have m: "min n (i + 5) - (i - 5) = i + 5" using 1 assms by linarith
    have e: "edge_factor n i = 10 / real (i + 5)" using 1 by (simp only: edge_factor_def if_True)
    have "real (i + 5) \<noteq> 0" by simp
    then show ?thesis unfolding m e by (rule scale_back)
  next
    case 2
    have m: "min n (i + 5) - (i - 5) = n - i + 5" using 2 assms by linarith
    have "\<not> i < 5" using 2 by simp
    then have e: "edge_factor n i = 10 / real (n - i + 5)" using 2 by (simp only: edge_factor_def if_True if_False)
    have "real (n - i + 5) \<noteq> 0" by simp
    then show ?thesis unfolding m e by (rule scale_back)
  next
    case 3
    have m: "min n (i + 5) - (i - 5) = 10" using 3 assms by linarith
    have "\<not> i < 5" "\<not> n < i + 5" using 3 by simp_all
    then have e: "edge_factor n i = 1" by (simp only: edge_factor_def if_False)
    show ?thesis unfolding m e by simp
  qed
qed

lemma filter_column_const:
  assumes "10 \<le> n"
  shows "filter_column (replicate n c) 10 = Inr (replicate n c)"
proof -
  have "filter_column (replicate n c) 10
      = Inr (map (\<lambda>i. (map (\<lambda>i. c * real (min n (i + 5) - (i - 5)) / 10) [0..<n]) ! i
                        * edge_factor n i) [0..<n])"
    using filter_column_10 [OF _ convolve_same_const [OF assms, of c]] assms by simp
  also have "map (\<lambda>i. (map (\<lambda>i. c * real (min n (i + 5) - (i - 5)) / 10) [0..<n]) ! i
                        * edge_factor n i) [0..<n] = replicate n c"
  proof (intro nth_equalityI)
    show "length (map (\<lambda>i. (map (\<lambda>i. c * real (min n (i + 5) - (i - 5)) / 10) [0..<n]) ! i
                        * edge_factor n i) [0..<n]) = length (replicate n c)" by simp
  next
    fix i assume "i < length (map (\<lambda>i. (map (\<lambda>i. c * real (min n (i + 5) - (i - 5)) / 10) [0..<n]) ! i
                        * edge_factor n i) [0..<n])"
    then have i: "i < n" by simp
    show "map (\<lambda>i. (map (\<lambda>i. c * real (min n (i + 5) - (i - 5)) / 10) [0..<n]) ! i
                        * edge_factor n i) [0..<n] ! i = replicate n c ! i"
      using window_count_factor [OF assms i, of c] i by simp
  qed
  finally show ?thesis .
qed

lemma filter_column_short:
  assumes "length col < 10"
  shows "filter_column col 10 = Inl ValueError"
  using assms by (auto simp: filter_column_def convolve_same_def Let_def)

lemma moving_average_filter_const:
  assumes "10 \<le> n"
  shows "moving_average_filter (replicate n p) 10 = Inr (replicate n p)"
  using assms by (simp add: moving_average_filter_def filter_column_const zip_replicate)

text \<open>C8, as the claim states it, fails for a horizon shorter than the window: on a
  constant sequence of three 2-vectors the filter raises ValueError (the convolution has
  the window's ten entries, which do not fit the column of three).\<close>

theorem C8_smoothing_short_counterexample:
  "moving_average_filter (replicate 3 (1, 1)) 10 = Inl ValueError
   \<and> moving_average_filter (replicate 3 (1, 1)) 10 \<noteq> Inr (replicate 3 (1, 1))"
  by (simp add: moving_average_filter_def filter_column_short)

text \<open>C8, amended: on a sequence of \<open>n\<close> equal 2-vectors the moving-average filter with
  window size 10 returns the sequence unchanged when \<open>n\<close> is at least 10, and raises
  ValueError when \<open>n\<close> is less than 10.\<close>

theorem C8_smoothing_constant:
  "moving_average_filter (replicate n p) 10
     = (if 10 \<le> n then Inr (replicate n p) else Inl ValueError)"
proof (cases "10 \<le> n")
  case True
  then show ?thesis
    by (simp add: moving_average_filter_const)
next
  case False
  then show ?thesis
    by (simp add: moving_average_filter_def filter_column_short)
qed

subsection \<open>Collision check\<close>

lemma affine_transform_nth:
  assumes "length xs = length ys" "xs \<noteq> []"
  shows "\<exists>rx ry. affine_transform xs ys t tr = Inr (rx, ry)
           \<and> length rx = Suc (length xs)
           \<and> (\<forall>p<Suc (length xs).
                 rx ! p = xs ! (if p < length xs then p else 0) * cos t
                          - ys ! (if p < length xs then p else 0) * sin t + fst tr
               \<and> ry ! p = xs ! (if p < length xs then p else 0) * sin t
                          + ys ! (if p < length xs then p else 0) * cos t + snd tr)"
proof -
  have pos: "0 < length xs" using assms(2) by simp
  then have up: "[0..<length xs] \<noteq> []" by simp
  have hd0: "hd [0..<length xs] = 0" using pos by (simp add: upt_rec)
  show ?thesis
    using assms pos up hd0
    by (auto simp: affine_transform_def Let_def nth_append hd_map less_Suc_eq)
qed

lemma is_collided_points:
  "\<exists>rx ry. length rx = 10
     \<and> (\<forall>p<10. 
           rx ! p = robot_shape_x (robot_length s * collision_safety_margin_rate s) ! (if p < 9 then p else 0) * cos yaw
                    - robot_shape_y (robot_width s * collision_safety_margin_rate s) ! (if p < 9 then p else 0) * sin yaw + x
         \<and> ry ! p = robot_shape_x (robot_length s * collision_safety_margin_rate s) ! (if p < 9 then p else 0) * sin yaw
                    + robot_shape_y (robot_width s * collision_safety_margin_rate s) ! (if p < 9 then p else 0) * cos yaw + y)
     \<and> is_collided s (x, y, yaw) =
         Inr (if list_ex (\<lambda>obs. case obs of (obs_x, obs_y, obs_r) \<Rightarrow>
                        list_ex (\<lambda>p. (rx ! p - obs_x)\<^sup>2 + (ry ! p - obs_y)\<^sup>2 < obs_r\<^sup>2)
                          [0..<length rx])
                      (obstacle_circles s)
                  then 1 else 0)"
proof -
  let ?xs = "robot_shape_x (robot_length s * collision_safety_margin_rate s)"
  let ?ys = "robot_shape_y (robot_width s * collision_safety_margin_rate s)"
  have len: "length ?xs = length ?ys" "?xs \<noteq> []" "length ?xs = 9"
    by (simp_all add: robot_shape_x_def robot_shape_y_def)
  obtain rx ry where r: "affine_transform ?xs ?ys yaw (x, y) = Inr (rx, ry)"
    and l: "length rx = Suc (length ?xs)"
    and n: "\<forall>p<Suc (length ?xs).
                 rx ! p = ?xs ! (if p < length ?xs then p else 0) * cos yaw
                          - ?ys ! (if p < length ?xs then p else 0) * sin yaw + fst (x, y)
               \<and> ry ! p = ?xs ! (if p < length ?xs then p else 0) * sin yaw
                          + ?ys ! (if p < length ?xs then p else 0) * cos yaw + snd (x, y)"
    using affine_transform_nth [OF len(1,2), of yaw "(x, y)"] by blast
  have "is_collided s (x, y, yaw) =
         Inr (if list_ex (\<lambda>obs. case obs of (obs_x, obs_y, obs_r) \<Rightarrow>
                        list_ex (\<lambda>p. (rx ! p - obs_x)\<^sup>2 + (ry ! p - obs_y)\<^sup>2 < obs_r\<^sup>2)
                          [0..<length rx])
                      (obstacle_circles s)
                  then 1 else 0)"
    using r unfolding is_collided_def Let_def by simp
  then show ?thesis using l n len(3) by (intro exI [of _ rx] exI [of _ ry]) simp
qed


lemma rot_norm_gen:
  "(a * c - b * d)\<^sup>2 + (a * d + b * c)\<^sup>2 = (a\<^sup>2 + b\<^sup>2) * (d\<^sup>2 + (c::real)\<^sup>2)"
  by (simp add: power2_eq_square algebra_simps)

lemma rot_norm: "(a * cos t - b * sin t)\<^sup>2 + (a * sin t + b * cos t)\<^sup>2 = a\<^sup>2 + (b::real)\<^sup>2"
  by (simp add: rot_norm_gen)

lemma far_point:
  fixes x y ox oy r a b t h :: real
  assumes far: "(\<bar>r\<bar> + h)\<^sup>2 \<le> (x - ox)\<^sup>2 + (y - oy)\<^sup>2" and h: "\<bar>a\<bar> + \<bar>b\<bar> \<le> h"
  shows "r\<^sup>2 \<le> (a * cos t - b * sin t + x - ox)\<^sup>2 + (a * sin t + b * cos t + y - oy)\<^sup>2"
proof -
  let ?c = "Complex (x - ox) (y - oy)"
  let ?q = "Complex (a * cos t - b * sin t) (a * sin t + b * cos t)"
  have "cmod ?q = sqrt (a\<^sup>2 + b\<^sup>2)"
    by (simp add: cmod_def rot_norm)
  also have "\<dots> \<le> \<bar>a\<bar> + \<bar>b\<bar>"
    by (rule sqrt_sum_squares_le_sum_abs)
  finally have q: "cmod ?q \<le> h" using h by simp
  have "\<bar>r\<bar> + h \<le> cmod ?c"
    unfolding cmod_def using far by (simp add: real_le_rsqrt)
  moreover have "cmod ?c - cmod ?q \<le> cmod (?c + ?q)"
    by (rule norm_diff_ineq)
  ultimately have "\<bar>r\<bar> \<le> cmod (?c + ?q)" using q by linarith
  then have "\<bar>r\<bar>\<^sup>2 \<le> (cmod (?c + ?q))\<^sup>2"
    by (intro power_mono) auto
  then show ?thesis
    by (simp add: cmod_power2 algebra_simps)
qed


lemma upt_9: "[0..<9] = [0, 1, 2, 3, 4, 5, 6, 7, 8]"
  by (simp add: upt_rec)

lemma upt_10: "[0..<10] = [0, 1, 2, 3, 4, 5, 6, 7, 8, 9]"
  by (simp add: upt_rec)

text \<open>C9, as the claim states it, fails: the check tests ten points of the footprint's
  boundary, never the centre. With the default footprint (0.8 by 0.6, margin 1.2) centred
  exactly on an obstacle of radius 0.1 no key point is inside, and the result is 0.0.
  Nor does distance from an obstacle relative to its radius decide the result: a robot of
  length 100 at distance 60 from an obstacle of radius 1 has a key point on its centre.\<close>

theorem C9_collision_counterexample:
  "is_collided (example_solver\<lparr>obstacle_circles := [(0, 0, 0.1)]\<rparr>) (0, 0, 0) = Inr 0
   \<and> is_collided (example_solver\<lparr>robot_length := 100, obstacle_circles := [(60, 0, 1)]\<rparr>)
        (0, 0, 0) = Inr 1"
  by (simp add: is_collided_def affine_transform_def example_solver_def upt_9 upt_10 Let_def
        power2_eq_square robot_shape_x_def robot_shape_y_def)

lemma robot_shape_bound:
  assumes "p < 9"
  shows "\<bar>robot_shape_x vl ! p\<bar> + \<bar>robot_shape_y vw ! p\<bar> \<le> (\<bar>vl\<bar> + \<bar>vw\<bar>) / 2"
proof -
  have "list_all (\<lambda>p. \<bar>robot_shape_x vl ! p\<bar> + \<bar>robot_shape_y vw ! p\<bar> \<le> (\<bar>vl\<bar> + \<bar>vw\<bar>) / 2) [0..<9]"
    unfolding upt_9 by (simp add: robot_shape_x_def robot_shape_y_def abs_mult)
  then show ?thesis using assms by (simp add: list_all_iff)
qed

lemma is_collided_miss:
  assumes "list_all (\<lambda>obs. case obs of (obs_x, obs_y, obs_r) \<Rightarrow>
             (\<bar>obs_r\<bar> + (\<bar>robot_length s * collision_safety_margin_rate s\<bar>
                         + \<bar>robot_width s * collision_safety_margin_rate s\<bar>) / 2)\<^sup>2
               \<le> (x - obs_x)\<^sup>2 + (y - obs_y)\<^sup>2) (obstacle_circles s)"
  shows "is_collided s (x, y, yaw) = Inr 0"
proof -
  let ?vl = "robot_length s * collision_safety_margin_rate s"
  let ?vw = "robot_width s * collision_safety_margin_rate s"
  obtain rx ry where len: "length rx = 10"
    and pts: "\<forall>p<10. 
           rx ! p = robot_shape_x ?vl ! (if p < 9 then p else 0) * cos yaw
                    - robot_shape_y ?vw ! (if p < 9 then p else 0) * sin yaw + x
         \<and> ry ! p = robot_shape_x ?vl ! (if p < 9 then p else 0) * sin yaw
                    + robot_shape_y ?vw ! (if p < 9 then p else 0) * cos yaw + y"
    and res: "is_collided s (x, y, yaw) =
         Inr (if list_ex (\<lambda>obs. case obs of (obs_x, obs_y, obs_r) \<Rightarrow>
                        list_ex (\<lambda>p. (rx ! p - obs_x)\<^sup>2 + (ry ! p - obs_y)\<^sup>2 < obs_r\<^sup>2)
                          [0..<length rx])
                      (obstacle_circles s)
                  then 1 else 0)"
    using is_collided_points [of s yaw x y] by blast
  have "\<not> ((rx ! p - ox)\<^sup>2 + (ry ! p - oy)\<^sup>2 < r\<^sup>2)"
    if obs: "(ox, oy, r) \<in> set (obstacle_circles s)" and p: "p < 10" for ox oy r p
  proof -
    let ?q = "if p < 9 then p else 0"
    have q: "?q < 9" by simp
    have far: "(\<bar>r\<bar> + (\<bar>?vl\<bar> + \<bar>?vw\<bar>) / 2)\<^sup>2 \<le> (x - ox)\<^sup>2 + (y - oy)\<^sup>2"
      using assms obs by (auto simp: list_all_iff)
    have "r\<^sup>2 \<le> (robot_shape_x ?vl ! ?q * cos yaw - robot_shape_y ?vw ! ?q * sin yaw + x - ox)\<^sup>2
               + (robot_shape_x ?vl ! ?q * sin yaw + robot_shape_y ?vw ! ?q * cos yaw + y - oy)\<^sup>2"
      by (rule far_point [OF far robot_shape_bound [OF q]])
    then show ?thesis using pts p by simp
  qed
  then have "\<not> list_ex (\<lambda>obs. case obs of (obs_x, obs_y, obs_r) \<Rightarrow>
                        list_ex (\<lambda>p. (rx ! p - obs_x)\<^sup>2 + (ry ! p - obs_y)\<^sup>2 < obs_r\<^sup>2)
                          [0..<length rx])
                      (obstacle_circles s)"
    using len by (auto simp: list_ex_iff)
  then show ?thesis using res by simp
qed

lemma is_collided_hit:
  assumes obs: "(x, y, r) \<in> set (obstacle_circles s)"
    and big: "(robot_width s * collision_safety_margin_rate s / 2)\<^sup>2 < r\<^sup>2
              \<or> (robot_length s * collision_safety_margin_rate s / 2)\<^sup>2 < r\<^sup>2"
  shows "is_collided s (x, y, yaw) = Inr 1"
proof -
  let ?vl = "robot_length s * collision_safety_margin_rate s"
  let ?vw = "robot_width s * collision_safety_margin_rate s"
  obtain rx ry where len: "length rx = 10"
    and pts: "\<forall>p<10. 
           rx ! p = robot_shape_x ?vl ! (if p < 9 then p else 0) * cos yaw
                    - robot_shape_y ?vw ! (if p < 9 then p else 0) * sin yaw + x
         \<and> ry ! p = robot_shape_x ?vl ! (if p < 9 then p else 0) * sin yaw
                    + robot_shape_y ?vw ! (if p < 9 then p else 0) * cos yaw + y"
    and res: "is_collided s (x, y, yaw) =
         Inr (if list_ex (\<lambda>obs. case obs of (obs_x, obs_y, obs_r) \<Rightarrow>
                        list_ex (\<lambda>p. (rx ! p - obs_x)\<^sup>2 + (ry ! p - obs_y)\<^sup>2 < obs_r\<^sup>2)
                          [0..<length rx])
                      (obstacle_circles s)
                  then 1 else 0)"
    using is_collided_points [of s yaw x y] by blast
  have d: "(rx ! p - x)\<^sup>2 + (ry ! p - y)\<^sup>2
       = (robot_shape_x ?vl ! (if p < 9 then p else 0))\<^sup>2 + (robot_shape_y ?vw ! (if p < 9 then p else 0))\<^sup>2"
    if "p < 10" for p
    using pts that by (simp add: rot_norm)
  have "\<exists>p<10. (rx ! p - x)\<^sup>2 + (ry ! p - y)\<^sup>2 < r\<^sup>2"
  proof (rule disjE [OF big])
    assume w: "(?vw / 2)\<^sup>2 < r\<^sup>2"
    have "(rx ! 2 - x)\<^sup>2 + (ry ! 2 - y)\<^sup>2 = (?vw / 2)\<^sup>2"
      by (simp add: d robot_shape_x_def robot_shape_y_def)
    then show ?thesis using w by (intro exI [of _ 2]) simp
  next
    assume l: "(?vl / 2)\<^sup>2 < r\<^sup>2"
    have "(rx ! 4 - x)\<^sup>2 + (ry ! 4 - y)\<^sup>2 = (?vl / 2)\<^sup>2"
      by (simp add: d robot_shape_x_def robot_shape_y_def)
    then show ?thesis using l by (intro exI [of _ 4]) simp
  qed
  then have "list_ex (\<lambda>obs. case obs of (obs_x, obs_y, obs_r) \<Rightarrow>
                        list_ex (\<lambda>p. (rx ! p - obs_x)\<^sup>2 + (ry ! p - obs_y)\<^sup>2 < obs_r\<^sup>2)
                          [0..<length rx])
                      (obstacle_circles s)"
    using len obs by (auto simp: list_ex_iff intro!: bexI [of _ "(x, y, r)"])
  then show ?thesis using res by simp
qed

text \<open>C9, amended: for every obstacle set and every heading, the check returns 1.0 when
  the pose is the centre of an obstacle whose radius exceeds half the scaled width or half
  the scaled length of the footprint, and returns 0.0 when every obstacle's centre is at
  least its radius plus half the scaled length plus half the scaled width away from the
  pose.\<close>

theorem C9_collision_predicate:
  "((x, y, r) \<in> set (obstacle_circles s)
      \<and> ((robot_width s * collision_safety_margin_rate s / 2)\<^sup>2 < r\<^sup>2
         \<or> (robot_length s * collision_safety_margin_rate s / 2)\<^sup>2 < r\<^sup>2)
      \<longrightarrow> is_collided s (x, y, yaw) = Inr 1)
   \<and> (list_all (\<lambda>obs. case obs of (obs_x, obs_y, obs_r) \<Rightarrow>
             (\<bar>obs_r\<bar> + (\<bar>robot_length s * collision_safety_margin_rate s\<bar>
                         + \<bar>robot_width s * collision_safety_margin_rate s\<bar>) / 2)\<^sup>2
               \<le> (x - obs_x)\<^sup>2 + (y - obs_y)\<^sup>2) (obstacle_circles s)
      \<longrightarrow> is_collided s (x, y, yaw) = Inr 0)"
  using is_collided_hit [of x y r s yaw] is_collided_miss [of s x y yaw] by blast

theorem C9_collision_predicate_witness:
  "is_collided example_solver (8, 5, 1) = Inr 1 \<and> is_collided example_solver (0, 0, 1) = Inr 0"
  using C9_collision_predicate [of 8 5 1 example_solver 1]
    C9_collision_predicate [of 0 0 1 example_solver 1]
  by (simp add: example_solver_def power2_eq_square)

subsection \<open>The control step: when it returns and what it returns\<close>

lemma compute_weights_single:
  assumes "number_of_samples_K s = 1" "param_lambda s \<noteq> 0"
  shows "compute_weights s [c] = Inr [1]"
  using compute_weights_eq [of s "[c]"] assms by (simp add: shifted_exp_def)

lemma convolve_same_length:
  assumes "10 \<le> length col"
  shows "\<exists>conv. convolve_same col (replicate 10 (1 / 10)) = Inr conv \<and> length conv = length col"
  using assms by (auto simp: convolve_same_def Let_def)

lemma filter_column_length:
  assumes "10 \<le> length col"
  shows "\<exists>r. filter_column col 10 = Inr r \<and> length r = length col"
proof -
  obtain conv where c: "convolve_same col (replicate 10 (1 / 10)) = Inr conv"
    and l: "length conv = length col"
    using convolve_same_length [OF assms] by blast
  show ?thesis
    using filter_column_10 [OF assms c l] by simp
qed

lemma moving_average_filter_length:
  assumes "10 \<le> length xx"
  shows "\<exists>r. moving_average_filter xx 10 = Inr r \<and> length r = length xx"
proof -
  obtain c0 where c0: "filter_column (map fst xx) 10 = Inr c0" "length c0 = length xx"
    using filter_column_length [of "map fst xx"] assms by auto
  obtain c1 where c1: "filter_column (map snd xx) 10 = Inr c1" "length c1 = length xx"
    using filter_column_length [of "map snd xx"] assms by auto
  show ?thesis
    using c0 c1 by (simp add: moving_average_filter_def)
qed

lemma moving_average_filter_Inr:
  assumes "moving_average_filter xx 10 = Inr r"
  shows "10 \<le> length xx \<and> length r = length xx"
proof (cases "10 \<le> length xx")
  case True
  then show ?thesis using moving_average_filter_length [OF True] assms by auto
next
  case False
  then have "filter_column (map fst xx) 10 = Inl ValueError"
    by (intro filter_column_short) simp
  then show ?thesis using assms by (simp add: moving_average_filter_def)
qed

lemma weighted_noise_length: "length (weighted_noise s w epsilon) = nat (horizon_step_T s)"
  by (simp add: weighted_noise_def)

lemma updated_sequence_Inr:
  assumes "updated_sequence s draw x = Inr u" "solver_ok s"
  shows "length u = nat (horizon_step_T s) \<and> 10 \<le> horizon_step_T s"
  using assms moving_average_filter_Inr weighted_noise_length
  by (fastforce simp: updated_sequence_def solver_ok_def split: if_splits sum.splits)

lemma updated_sequence_returns:
  assumes "solver_ok s" "10 \<le> horizon_step_T s" "1 \<le> number_of_samples_K s"
    "shape0 (sigma s) = 2" "shape1 (sigma s) = 2" "det2 (sigma s) \<noteq> 0" "param_lambda s \<noteq> 0"
  shows "\<exists>u. updated_sequence s draw x = Inr u"
proof -
  let ?S = "map (sample_cost s draw x) [0..<nat (number_of_samples_K s)]"
  have "number_of_samples_K s = int (length ?S)" "?S \<noteq> []" using assms(3) by auto
  then obtain w where w: "compute_weights s ?S = Inr w"
    using compute_weights_eq [of s ?S] assms(7) by blast
  have "10 \<le> length (weighted_noise s w draw)"
    using assms(2) by (simp add: weighted_noise_length)
  then obtain r where r: "moving_average_filter (weighted_noise s w draw) 10 = Inr r"
    using moving_average_filter_length [of "weighted_noise s w draw"] by blast
  show ?thesis
    using assms w r by (simp add: updated_sequence_def calc_epsilon_def dim_u_def)
qed

lemma calc_control_input_Inr:
  assumes "calc_control_input s draw x = Inr ((a, sq, ot, st), s')" "solver_ok s"
  shows "\<exists>u. updated_sequence s draw x = Inr u \<and> length u = nat (horizon_step_T s)
           \<and> 10 \<le> horizon_step_T s
           \<and> sq = tl (if visualize_optimal_traj s then map (mppi_g s) u else u)
                  @ [last (if visualize_optimal_traj s then map (mppi_g s) u else u)]
           \<and> a = sq ! 0 \<and> s' = s\<lparr>u_prev := sq\<rparr>"
proof -
  obtain u where u: "updated_sequence s draw x = Inr u"
    using assms(1) by (auto simp: calc_control_input_def split: sum.splits)
  have l: "length u = nat (horizon_step_T s)" "10 \<le> horizon_step_T s"
    using updated_sequence_Inr [OF u assms(2)] by auto
  then have ne: "u \<noteq> []" by auto
  show ?thesis
    using assms(1) u l ne
    by (auto simp: calc_control_input_def shift_left_def Let_def split: if_splits)
qed

lemma calc_control_input_returns:
  assumes "solver_ok s" "10 \<le> horizon_step_T s" "1 \<le> number_of_samples_K s"
    "shape0 (sigma s) = 2" "shape1 (sigma s) = 2" "det2 (sigma s) \<noteq> 0" "param_lambda s \<noteq> 0"
  shows "\<exists>a sq ot st s'. calc_control_input s draw x = Inr ((a, sq, ot, st), s')"
proof -
  obtain u where u: "updated_sequence s draw x = Inr u"
    using updated_sequence_returns [OF assms] by blast
  have "length u = nat (horizon_step_T s)"
    using updated_sequence_Inr [OF u assms(1)] by simp
  then have ne: "u \<noteq> []" using assms(2) by auto
  show ?thesis
    using u ne by (simp add: calc_control_input_def shift_left_def Let_def)
qed

lemma solver_ok_preserved:
  assumes "calc_control_input s draw x = Inr (r, s')" "solver_ok s"
  shows "solver_ok s'"
proof -
  obtain a sq ot st where r: "r = (a, sq, ot, st)" by (cases r) auto
  obtain u where u: "length u = nat (horizon_step_T s)" "10 \<le> horizon_step_T s"
     "sq = tl (if visualize_optimal_traj s then map (mppi_g s) u else u)
                  @ [last (if visualize_optimal_traj s then map (mppi_g s) u else u)]"
     "s' = s\<lparr>u_prev := sq\<rparr>"
    using calc_control_input_Inr [OF assms(1) [unfolded r] assms(2)] by blast
  have "u \<noteq> []" using u(1,2) by auto
  then have "length sq = length u" using u(3) by simp
  then show ?thesis using u(1,4) assms(2) by (simp add: solver_ok_def)
qed

subsection \<open>The control step on the concrete configuration\<close>

lemma example_convolve:
  "convolve_same [0.3, 0, 0, 0, 0, 0, 0, 0, 0, 0] (replicate 10 (1 / 10))
     = Inr [0.03, 0.03, 0.03, 0.03, 0.03, 0.03, 0, 0, 0, 0]"
  by (simp add: convolve_same_def upt_10)

lemma example_filter_column:
  "filter_column [0.3, 0, 0, 0, 0, 0, 0, 0, 0, 0] 10
     = Inr [0.06, 0.05, 3 / 70, 3 / 80, 1 / 30, 0.03, 0, 0, 0, 0]"
  using filter_column_10 [OF _ example_convolve]
  by (simp add: upt_10 edge_factor_def)

lemma example_filter_zero:
  "filter_column [0, 0, 0, 0, 0, 0, 0, 0, 0, 0] 10 = Inr [0, 0, 0, 0, 0, 0, 0, 0, 0, 0]"
  using filter_column_const [of 10 0] by (simp add: eval_nat_numeral)

lemma example_weighted_noise:
  "weighted_noise example_solver [1] example_draw
     = [(0.3, 0), (0, 0), (0, 0), (0, 0), (0, 0), (0, 0), (0, 0), (0, 0), (0, 0), (0, 0)]"
  by (simp add: weighted_noise_def example_solver_def example_draw_def upt_10 cadd_def
        cscale_def zero_control_def)

lemma example_smoothed:
  "moving_average_filter
     [(0.3, 0), (0, 0), (0, 0), (0, 0), (0, 0), (0, 0), (0, 0), (0, 0), (0, 0), (0, 0)] 10
   = Inr [(0.06, 0), (0.05, 0), (3 / 70, 0), (3 / 80, 0), (1 / 30, 0), (0.03, 0), (0, 0),
          (0, 0), (0, 0), (0, 0)]"
  by (simp add: moving_average_filter_def example_filter_column example_filter_zero)

lemma example_updated_sequence:
  "updated_sequence example_solver example_draw (0, 0, 0)
     = Inr [(0.06, 0), (0.05, 0), (3 / 70, 0), (3 / 80, 0), (1 / 30, 0), (0.03, 0), (0, 0),
            (0, 0), (0, 0), (0, 0)]"
proof -
  have K: "number_of_samples_K example_solver = 1" and L: "param_lambda example_solver \<noteq> 0"
    by (simp_all add: example_solver_def)
  have w: "compute_weights example_solver [sample_cost example_solver example_draw (0, 0, 0) 0]
      = Inr [1]"
    by (rule compute_weights_single [OF K L])
  have pre: "calc_epsilon (sigma example_solver) (number_of_samples_K example_solver)
       (horizon_step_T example_solver) dim_u example_draw = Inr example_draw"
    by (simp add: calc_epsilon_def example_solver_def example_sigma_def dim_u_def)
  have det: "det2 (sigma example_solver) \<noteq> 0"
    by (simp add: det2_def example_solver_def example_sigma_def)
  have u: "u_prev example_solver
      = [(0, 0), (0, 0), (0, 0), (0, 0), (0, 0), (0, 0), (0, 0), (0, 0), (0, 0), (0, 0)]"
    by (simp add: example_solver_def zero_control_def eval_nat_numeral)
  show ?thesis
    unfolding updated_sequence_def pre
    using K det w
    by (simp add: example_weighted_noise example_smoothed u cadd_def)
qed

lemma example_call:
  "calc_control_input example_solver example_draw (0, 0, 0)
     = Inr (((0.05, 0), example_shifted, replicate 10 zero_state, [replicate 10 zero_state]),
            example_solver\<lparr>u_prev := example_shifted\<rparr>)"
proof -
  have f: "\<not> visualize_optimal_traj example_solver" "\<not> visualze_sampled_trajs example_solver"
    "nat (horizon_step_T example_solver) = 10" "nat (number_of_samples_K example_solver) = 1"
    by (simp_all add: example_solver_def)
  show ?thesis
    unfolding calc_control_input_def example_updated_sequence
    by (simp add: f shift_left_def example_shifted_def)
qed




subsection \<open>Returned action, returned sequence and warm-start buffer\<close>

text \<open>C1 (the code departs from the claim): on \<open>example_solver\<close> with \<open>example_draw\<close> the
  update step produces a sequence whose first element is \<open>(0.06, 0)\<close>, and the call
  returns the action \<open>(0.05, 0)\<close>, the second element of that sequence: \<^verbatim>\<open>u[0]\<close> is read after the
  shift has moved the buffer that \<^verbatim>\<open>u\<close> names.\<close>

theorem C1_action_read_after_shift:
  "updated_sequence example_solver example_draw (0, 0, 0) = Inr example_updated
   \<and> example_updated ! 0 = (0.06, 0) \<and> example_updated ! 1 = (0.05, 0)
   \<and> calc_control_input example_solver example_draw (0, 0, 0)
       = Inr (((0.05, 0), example_shifted, replicate 10 zero_state, [replicate 10 zero_state]),
              example_solver\<lparr>u_prev := example_shifted\<rparr>)"
  using example_updated_sequence example_call by (simp add: example_updated_def)

text \<open>C3 (the code departs from the claim): after the same call the stored buffer is the
  returned sequence itself, entry for entry, so its entry 0 is \<open>(0.05, 0)\<close> while entry 1
  of the returned sequence is \<open>(3 / 70, 0)\<close>.\<close>

theorem C3_buffer_is_returned_sequence:
  "(case calc_control_input example_solver example_draw (0, 0, 0) of
      Inl e \<Rightarrow> False
    | Inr (r, s') \<Rightarrow>
        u_prev s' = fst (snd r) \<and> u_prev s' ! 0 = (0.05, 0) \<and> fst (snd r) ! 1 = (3 / 70, 0))"
  by (simp add: example_call example_shifted_def)

subsection \<open>Saturation\<close>

lemma mppi_g_bounds:
  assumes "0 \<le> max_linear_vel s" "0 \<le> max_angular_vel s"
  shows "- max_linear_vel s \<le> fst (mppi_g s v) \<and> fst (mppi_g s v) \<le> max_linear_vel s
       \<and> - max_angular_vel s \<le> snd (mppi_g s v) \<and> snd (mppi_g s v) \<le> max_angular_vel s"
  using assms by (simp add: mppi_g_def clip_def)










text \<open>With \<^verbatim>\<open>visualize_optimal_traj\<close> set, the loop that computes the optimal trajectory
  saturates the rows of the sequence in place, and the returned action is then within
  the limits: a side effect of the diagnostic on the result.\<close>

lemma action_saturated_when_visualized:
  assumes call: "calc_control_input s draw x = Inr ((a, sq, ot, st), s')" and ok: "solver_ok s"
    and viz: "visualize_optimal_traj s"
    and lim: "0 \<le> max_linear_vel s" "0 \<le> max_angular_vel s"
  shows "within_limits s a"
proof -
  obtain u where u: "length u = nat (horizon_step_T s)" "10 \<le> horizon_step_T s"
     "sq = tl (if visualize_optimal_traj s then map (mppi_g s) u else u)
                  @ [last (if visualize_optimal_traj s then map (mppi_g s) u else u)]"
     "a = sq ! 0"
    using calc_control_input_Inr [OF call ok] by blast
  have "2 \<le> length u"
    using u(1,2) by linarith
  then have "sq ! 0 = mppi_g s (u ! 1)"
    using u(3) viz by (cases u; cases "tl u") auto
  then show ?thesis
    using mppi_g_bounds [OF lim] u(4) by (simp add: within_limits_def)
qed

subsection \<open>Configuration errors\<close>

lemma init_Inl: "init c = Inl e \<longleftrightarrow> (horizon_step_T c < 0 \<and> e = ValueError)"
  by (auto simp: init_def)

lemma init_fields:
  assumes "init c = Inr s"
  shows "sigma s = sigma c \<and> number_of_samples_K s = number_of_samples_K c
       \<and> horizon_step_T s = horizon_step_T c"
  using assms by (auto simp: init_def split: if_splits)

lemma updated_sequence_bad_sigma:
  assumes "shape0 (sigma s) \<noteq> shape1 (sigma s) \<or> shape0 (sigma s) \<noteq> 2"
  shows "updated_sequence s draw x = Inl ValueError"
  using assms by (auto simp: updated_sequence_def calc_epsilon_def dim_u_def)

lemma updated_sequence_no_samples:
  assumes "number_of_samples_K s \<le> 0"
  shows "updated_sequence s draw x = Inl ValueError"
  using assms
  by (auto simp: updated_sequence_def calc_epsilon_def compute_weights_def split: sum.splits)

lemma updated_sequence_singular:
  assumes "shape0 (sigma s) = 2" "shape1 (sigma s) = 2" "det2 (sigma s) = 0"
    "0 < number_of_samples_K s" "0 \<le> horizon_step_T s"
  shows "updated_sequence s draw x = (if 0 < horizon_step_T s then Inl LinAlgError else updated_sequence s draw x)"
  using assms by (auto simp: updated_sequence_def calc_epsilon_def dim_u_def)

text \<open>C7, as the claim states it, fails: a covariance of the wrong dimension and a
  sample count of zero both pass construction, and each makes the call raise ValueError
  at runtime.\<close>

theorem C7_config_error_counterexample:
  "init (example_config\<lparr>sigma := identity3\<rparr>) = Inr (example_solver\<lparr>sigma := identity3\<rparr>)
   \<and> calc_control_input (example_solver\<lparr>sigma := identity3\<rparr>) example_draw (0, 0, 0)
       = Inl ValueError
   \<and> init (example_config\<lparr>number_of_samples_K := 0\<rparr>)
       = Inr (example_solver\<lparr>number_of_samples_K := 0\<rparr>)
   \<and> calc_control_input (example_solver\<lparr>number_of_samples_K := 0\<rparr>) example_draw (0, 0, 0)
       = Inl ValueError"
proof -
  have "updated_sequence (example_solver\<lparr>sigma := identity3\<rparr>) example_draw (0, 0, 0)
      = Inl ValueError"
    by (rule updated_sequence_bad_sigma) (simp add: identity3_def)
  moreover have "updated_sequence (example_solver\<lparr>number_of_samples_K := 0\<rparr>) example_draw (0, 0, 0)
      = Inl ValueError"
    by (rule updated_sequence_no_samples) simp
  ultimately show ?thesis
    by (simp add: calc_control_input_def init_def example_config_def example_solver_def)
qed

text \<open>C7, amended: construction checks neither the covariance nor the sample count; it
  fails, with ValueError, exactly when the horizon is negative. On a constructed solver a
  covariance that is not square or not of dimension 2, and a sample count that is not
  positive, make every call raise ValueError; a singular 2 x 2 covariance makes every call
  raise LinAlgError when the horizon and the sample count are positive. Positive
  definiteness is never checked: with any 2 x 2 covariance that is not singular (horizon at
  least 10, at least one sample, \<open>lambda\<close> not zero) the call returns.\<close>

theorem C7_config_errors_at_runtime:
  "(init c = Inl ValueError \<longleftrightarrow> horizon_step_T c < 0)
   \<and> (init c = Inr s \<and> (shape0 (sigma c) \<noteq> shape1 (sigma c) \<or> shape0 (sigma c) \<noteq> 2
                         \<or> number_of_samples_K c \<le> 0)
        \<longrightarrow> calc_control_input s draw x = Inl ValueError)
   \<and> (init c = Inr s \<and> shape0 (sigma c) = 2 \<and> shape1 (sigma c) = 2 \<and> det2 (sigma c) = 0
        \<and> 0 < number_of_samples_K c \<and> 0 < horizon_step_T c
        \<longrightarrow> calc_control_input s draw x = Inl LinAlgError)
   \<and> (init c = Inr s \<and> shape0 (sigma c) = 2 \<and> shape1 (sigma c) = 2 \<and> det2 (sigma c) \<noteq> 0
        \<and> 1 \<le> number_of_samples_K c \<and> 10 \<le> horizon_step_T c \<and> param_lambda c \<noteq> 0
        \<longrightarrow> (\<exists>r s'. calc_control_input s draw x = Inr (r, s')))"
proof (intro conjI impI)
  show "init c = Inl ValueError \<longleftrightarrow> horizon_step_T c < 0"
    by (simp add: init_Inl)
next
  assume a: "init c = Inr s \<and> (shape0 (sigma c) \<noteq> shape1 (sigma c) \<or> shape0 (sigma c) \<noteq> 2
                         \<or> number_of_samples_K c \<le> 0)"
  then have f: "sigma s = sigma c" "number_of_samples_K s = number_of_samples_K c"
    using init_fields by blast+
  have "updated_sequence s draw x = Inl ValueError"
    using a f updated_sequence_bad_sigma [of s draw x] updated_sequence_no_samples [of s draw x]
    by auto
  then show "calc_control_input s draw x = Inl ValueError"
    by (simp add: calc_control_input_def)
next
  assume a: "init c = Inr s \<and> shape0 (sigma c) = 2 \<and> shape1 (sigma c) = 2 \<and> det2 (sigma c) = 0
        \<and> 0 < number_of_samples_K c \<and> 0 < horizon_step_T c"
  then have f: "sigma s = sigma c" "number_of_samples_K s = number_of_samples_K c"
      "horizon_step_T s = horizon_step_T c"
    using init_fields by blast+
  have "updated_sequence s draw x = Inl LinAlgError"
    using a f updated_sequence_singular [of s draw x] by auto
  then show "calc_control_input s draw x = Inl LinAlgError"
    by (simp add: calc_control_input_def)
next
  assume a: "init c = Inr s \<and> shape0 (sigma c) = 2 \<and> shape1 (sigma c) = 2
        \<and> det2 (sigma c) \<noteq> 0
        \<and> 1 \<le> number_of_samples_K c \<and> 10 \<le> horizon_step_T c \<and> param_lambda c \<noteq> 0"
  then have f: "sigma s = sigma c" "number_of_samples_K s = number_of_samples_K c"
      "horizon_step_T s = horizon_step_T c"
    using init_fields by blast+
  have l: "param_lambda s = param_lambda c"
    using a by (auto simp: init_def split: if_splits)
  have ok: "solver_ok s"
    using a init_solver_ok by blast
  show "\<exists>r s'. calc_control_input s draw x = Inr (r, s')"
    using calc_control_input_returns [OF ok, of draw x] a f l by auto
qed

theorem C7_config_errors_at_runtime_witness:
  "(init (example_config\<lparr>horizon_step_T := - 1\<rparr>) = Inl ValueError)
   \<and> calc_control_input (example_solver\<lparr>sigma := identity3\<rparr>) example_draw (0, 0, 0)
       = Inl ValueError
   \<and> calc_control_input
        (example_solver\<lparr>sigma := \<lparr>shape0 = 2, shape1 = 2, entry = (\<lambda>i j. 0)\<rparr>\<rparr>)
        example_draw (0, 0, 0) = Inl LinAlgError
   \<and> (\<exists>r s'. calc_control_input
        (example_solver\<lparr>sigma := \<lparr>shape0 = 2, shape1 = 2,
                                     entry = (\<lambda>i j. if i = j then - 1 else 0)\<rparr>\<rparr>)
        example_draw (0, 0, 0) = Inr (r, s'))"
proof -
  have 1: "init (example_config\<lparr>sigma := identity3\<rparr>) = Inr (example_solver\<lparr>sigma := identity3\<rparr>)"
    by (simp add: init_def example_config_def example_solver_def)
  have 2: "init (example_config\<lparr>sigma := \<lparr>shape0 = 2, shape1 = 2, entry = (\<lambda>i j. 0)\<rparr>\<rparr>)
      = Inr (example_solver\<lparr>sigma := \<lparr>shape0 = 2, shape1 = 2, entry = (\<lambda>i j. 0)\<rparr>\<rparr>)"
    by (simp add: init_def example_config_def example_solver_def)
  have 3: "init (example_config\<lparr>sigma := \<lparr>shape0 = 2, shape1 = 2,
                                     entry = (\<lambda>i j. if i = j then - 1 else 0)\<rparr>\<rparr>)
      = Inr (example_solver\<lparr>sigma := \<lparr>shape0 = 2, shape1 = 2,
                                     entry = (\<lambda>i j. if i = j then - 1 else 0)\<rparr>\<rparr>)"
    by (simp add: init_def example_config_def example_solver_def)
  show ?thesis
    using C7_config_errors_at_runtime
        [of "example_config\<lparr>horizon_step_T := - 1\<rparr>" example_solver example_draw "(0, 0, 0)"]
      C7_config_errors_at_runtime
        [of "example_config\<lparr>sigma := identity3\<rparr>" "example_solver\<lparr>sigma := identity3\<rparr>"
            example_draw "(0, 0, 0)"]
      C7_config_errors_at_runtime
        [of "example_config\<lparr>sigma := \<lparr>shape0 = 2, shape1 = 2, entry = (\<lambda>i j. 0)\<rparr>\<rparr>"
            "example_solver\<lparr>sigma := \<lparr>shape0 = 2, shape1 = 2, entry = (\<lambda>i j. 0)\<rparr>\<rparr>"
            example_draw "(0, 0, 0)"]
      C7_config_errors_at_runtime
        [of "example_config\<lparr>sigma := \<lparr>shape0 = 2, shape1 = 2,
                                     entry = (\<lambda>i j. if i = j then - 1 else 0)\<rparr>\<rparr>"
            "example_solver\<lparr>sigma := \<lparr>shape0 = 2, shape1 = 2,
                                     entry = (\<lambda>i j. if i = j then - 1 else 0)\<rparr>\<rparr>"
            example_draw "(0, 0, 0)"]
      1 2 3
    by (simp add: example_config_def identity3_def det2_def)
qed

subsection \<open>Obstacles do not influence the control step\<close>

lemma frame_stage_step:
  "stage_step (s\<lparr>obstacle_circles := ob, collision_safety_margin_rate := m\<rparr>) = stage_step s"
  by (intro ext)
     (simp add: stage_step_def sample_control_def mppi_g_def mppi_F_def mppi_c_def)

lemma frame_sample_cost:
  "sample_cost (s\<lparr>obstacle_circles := ob, collision_safety_margin_rate := m\<rparr>) = sample_cost s"
  by (intro ext) (simp add: sample_cost_def frame_stage_step mppi_phi_def)

lemma frame_compute_weights:
  "compute_weights (s\<lparr>obstacle_circles := ob, collision_safety_margin_rate := m\<rparr>)
     = compute_weights s"
  by (intro ext) (simp add: compute_weights_def)

lemma frame_weighted_noise:
  "weighted_noise (s\<lparr>obstacle_circles := ob, collision_safety_margin_rate := m\<rparr>)
     = weighted_noise s"
  by (intro ext) (simp add: weighted_noise_def)

lemma frame_updated_sequence:
  "updated_sequence (s\<lparr>obstacle_circles := ob, collision_safety_margin_rate := m\<rparr>) draw x
     = updated_sequence s draw x"
  unfolding updated_sequence_def frame_sample_cost frame_compute_weights frame_weighted_noise
  by (simp cong: sum.case_cong if_cong)

lemma frame_mppi_g:
  "mppi_g (s\<lparr>obstacle_circles := ob, collision_safety_margin_rate := m\<rparr>) = mppi_g s"
  by (intro ext) (simp add: mppi_g_def)

lemma frame_rollout:
  "rollout (s\<lparr>obstacle_circles := ob, collision_safety_margin_rate := m\<rparr>) x us = rollout s x us"
  by (induction us arbitrary: x) (simp_all add: frame_mppi_g mppi_F_def)

lemma frame_sample_control:
  "sample_control (s\<lparr>obstacle_circles := ob, collision_safety_margin_rate := m\<rparr>) = sample_control s"
  by (intro ext) (simp add: sample_control_def)

text \<open>C10: for the same noise draw and observed state, a solver and the solver with
  another obstacle set and another collision safety margin rate give the same outcome of
  \<^verbatim>\<open>calc_control_input\<close>: the same error, or the same action, control sequence, optimal
  trajectory and sampled trajectories, and the same warm-start buffer afterwards.\<close>

theorem C10_obstacles_do_not_interfere:
  "map_sum id (\<lambda>(r, s'). (r, u_prev s'))
      (calc_control_input (s\<lparr>obstacle_circles := ob, collision_safety_margin_rate := m\<rparr>) draw x)
   = map_sum id (\<lambda>(r, s'). (r, u_prev s')) (calc_control_input s draw x)"
  unfolding calc_control_input_def frame_updated_sequence frame_rollout frame_mppi_g
    frame_sample_control
  by (simp add: Let_def split: sum.splits)

subsection \<open>Further properties of the control step\<close>

text \<open>When all \<open>K\<close> sample costs are equal (\<open>K\<close> positive, \<open>lambda\<close> not zero), every
  weight is \<open>1 / K\<close>.\<close>

theorem uniform_weights:
  assumes "number_of_samples_K s = int n" "0 < n" "param_lambda s \<noteq> 0"
  shows "compute_weights s (replicate n c) = Inr (replicate n (1 / real n))"
proof -
  have m: "Min (set (replicate n c)) = c"
    using assms(2) by simp
  have e: "shifted_exp s (replicate n c) c = 1"
    by (simp add: shifted_exp_def m)
  have sm: "(\<Sum>c'\<leftarrow>replicate n c. shifted_exp s (replicate n c) c') = real n"
    by (simp add: e sum_list_replicate map_replicate_const [symmetric] del: replicate.simps)
  have "compute_weights s (replicate n c) =
     Inr (map (\<lambda>c'. (1 / (\<Sum>c'\<leftarrow>replicate n c. shifted_exp s (replicate n c) c'))
                      * shifted_exp s (replicate n c) c') (replicate n c))"
    using assms by (intro compute_weights_eq) auto
  then show ?thesis
    by (simp add: sm e sum_list_replicate)
qed

theorem uniform_weights_witness:
  "compute_weights (example_solver\<lparr>number_of_samples_K := 4\<rparr>) (replicate 4 7)
     = Inr (replicate 4 (1 / 4))"
  using uniform_weights [of "example_solver\<lparr>number_of_samples_K := 4\<rparr>" 4 7]
  by (simp add: example_solver_def)

text \<open>After a call that returns (with \<^verbatim>\<open>visualize_optimal_traj\<close> off), the warm-start
  buffer is the sequence of the update step shifted one step left: entry \<open>i\<close> is entry
  \<open>i + 1\<close> of the updated sequence, the last entry is the updated sequence's last entry,
  and the buffer still has \<open>T\<close> rows.\<close>

theorem warm_start_buffer:
  assumes "calc_control_input s draw x = Inr ((a, sq, ot, st), s')" "solver_ok s"
    "\<not> visualize_optimal_traj s"
  shows "\<exists>u. updated_sequence s draw x = Inr u \<and> solver_ok s'
            \<and> length (u_prev s') = length u
            \<and> (\<forall>i. Suc i < length u \<longrightarrow> u_prev s' ! i = u ! Suc i)
            \<and> u_prev s' ! (length u - 1) = u ! (length u - 1)"
proof -
  obtain u where u: "updated_sequence s draw x = Inr u"
     "length u = nat (horizon_step_T s)" "10 \<le> horizon_step_T s"
     "sq = tl u @ [last u]" "s' = s\<lparr>u_prev := sq\<rparr>"
    using calc_control_input_Inr [OF assms(1,2)] assms(3) by auto
  have ne: "u \<noteq> []"
    using u(2,3) by auto
  have len: "length sq = length u"
    using u(4) ne by simp
  have shift: "sq ! i = u ! Suc i" if "Suc i < length u" for i
  proof -
    have "i < length (tl u)"
      using that by simp
    then show ?thesis
      using u(4) by (simp add: nth_append nth_tl)
  qed
  have dup: "sq ! (length u - 1) = u ! (length u - 1)"
    using u(4) ne by (simp add: nth_append last_conv_nth)
  have "solver_ok s'"
    by (rule solver_ok_preserved [OF assms(1,2)])
  then show ?thesis
    using u(1,5) len shift dup by auto
qed

theorem warm_start_buffer_witness:
  "\<exists>u. updated_sequence example_solver example_draw (0, 0, 0) = Inr u
       \<and> length example_shifted = length u
       \<and> example_shifted ! 0 = u ! 1 \<and> example_shifted ! 9 = u ! 9"
proof -
  have off: "\<not> visualize_optimal_traj example_solver"
    by (simp add: example_solver_def)
  obtain u where u: "updated_sequence example_solver example_draw (0, 0, 0) = Inr u"
    and len: "length (u_prev (example_solver\<lparr>u_prev := example_shifted\<rparr>)) = length u"
    and shift: "\<forall>i. Suc i < length u \<longrightarrow>
                  u_prev (example_solver\<lparr>u_prev := example_shifted\<rparr>) ! i = u ! Suc i"
    and dup: "u_prev (example_solver\<lparr>u_prev := example_shifted\<rparr>) ! (length u - 1)
                = u ! (length u - 1)"
    using warm_start_buffer [OF example_call example_solver_ok off] by blast
  have l: "length u = 10"
    using len by (simp add: example_shifted_def)
  then have "example_shifted ! 0 = u ! 1"
    using shift by simp
  moreover have "example_shifted ! 9 = u ! 9"
    using dup l by simp
  ultimately show ?thesis
    using u len by auto
qed

text \<open>On a solver whose buffer has \<open>T\<close> rows, with \<open>T\<close> at least 10 (the filter's
  window), at least one sample, a 2 x 2 covariance that is not singular and \<open>lambda\<close> not
  zero, the call raises nothing: it returns an action, a sequence and an optimal
  trajectory of \<open>T\<close> entries and \<open>K\<close> sampled trajectories, and leaves a buffer of \<open>T\<close>
  rows.\<close>

theorem call_returns:
  assumes "solver_ok s" "10 \<le> horizon_step_T s" "1 \<le> number_of_samples_K s"
    "shape0 (sigma s) = 2" "shape1 (sigma s) = 2" "det2 (sigma s) \<noteq> 0" "param_lambda s \<noteq> 0"
  shows "\<exists>a sq ot st s'. calc_control_input s draw x = Inr ((a, sq, ot, st), s')
            \<and> solver_ok s' \<and> length sq = nat (horizon_step_T s)
            \<and> length ot = nat (horizon_step_T s)
            \<and> length st = nat (number_of_samples_K s)"
proof -
  obtain a sq ot st s' where c: "calc_control_input s draw x = Inr ((a, sq, ot, st), s')"
    using calc_control_input_returns [OF assms] by blast
  have ok': "solver_ok s'"
    by (rule solver_ok_preserved [OF c assms(1)])
  obtain u where u: "updated_sequence s draw x = Inr u" "length u = nat (horizon_step_T s)"
     "s' = s\<lparr>u_prev := sq\<rparr>"
    using calc_control_input_Inr [OF c assms(1)] by auto
  have lsq: "length sq = nat (horizon_step_T s)"
    using ok' u(3) by (simp add: solver_ok_def)
  have rl: "length (rollout s y vs) = length vs" for y vs
    by (induction vs arbitrary: y) (simp_all add: Let_def)
  have "length ot = nat (horizon_step_T s) \<and> length st = nat (number_of_samples_K s)"
    using c u(1,2) by (auto simp: calc_control_input_def Let_def rl shift_left_def split: if_splits)
  then show ?thesis
    using c ok' lsq by blast
qed

theorem call_returns_witness:
  "\<exists>a sq ot st s'.
      calc_control_input
        (example_solver\<lparr>number_of_samples_K := 50, visualize_optimal_traj := True,
                         visualze_sampled_trajs := True\<rparr>) example_draw (0, 0, 0)
        = Inr ((a, sq, ot, st), s')
      \<and> solver_ok s' \<and> length sq = 10 \<and> length ot = 10 \<and> length st = 50"
  using call_returns
    [of "example_solver\<lparr>number_of_samples_K := 50, visualize_optimal_traj := True,
                         visualze_sampled_trajs := True\<rparr>" example_draw "(0, 0, 0)"]
  by (simp add: example_solver_def example_sigma_def det2_def solver_ok_def)

end
